theory Spec2Isabelle
  imports Main "HOL-Library.Sublist"
begin

section \<open>Python strings\<close>

text \<open>
  A Python \<open>str\<close> is modelled as a HOL \<open>string\<close>, each \<open>char\<close> read as one code
  point in the range U+0000 .. U+00FF. The string methods the function calls are
  written out below.
\<close>

text \<open>\<open>s.split(sep)\<close> with a one-character separator: n separators give n + 1 pieces.\<close>

fun split_on :: "char \<Rightarrow> string \<Rightarrow> string list" where
  "split_on sep [] = [[]]"
| "split_on sep (c # cs) =
     (if c = sep then [] # split_on sep cs
      else (case split_on sep cs of
              [] \<Rightarrow> [[c]]
            | p # ps \<Rightarrow> (c # p) # ps))"

text \<open>\<open>s.strip(chars)\<close> with a one-character set: removed at both ends.\<close>

definition strip :: "char \<Rightarrow> string \<Rightarrow> string" where
  "strip ch s = rev (dropWhile (\<lambda>c. c = ch) (rev (dropWhile (\<lambda>c. c = ch) s)))"

text \<open>\<open>sep.join(parts)\<close>.\<close>

fun join :: "string \<Rightarrow> string list \<Rightarrow> string" where
  "join sep [] = []"
| "join sep [p] = p"
| "join sep (p # q # ps) = p @ sep @ join sep (q # ps)"

text \<open>\<open>s.startswith(p)\<close>.\<close>

definition startswith :: "string \<Rightarrow> string \<Rightarrow> bool" where
  "startswith s p = prefix p s"

text \<open>
  The whitespace of \<open>str.split()\<close> among the code points below 256: tab, line feed,
  vertical tab, form feed, carriage return, the separators 0x1C .. 0x1F, space,
  0x85 and the no-break space 0xA0.
\<close>

definition is_space :: "char \<Rightarrow> bool" where
  "is_space c =
     (let n = (of_char c :: nat)
      in (9 \<le> n \<and> n \<le> 13) \<or> (28 \<le> n \<and> n \<le> 32) \<or> n = 133 \<or> n = 160)"

text \<open>
  \<open>s.split()\<close> with no argument: runs of whitespace separate the tokens and no token
  is empty. \<open>cur\<close> is the token being read, reversed.
\<close>

fun split_ws_from :: "string \<Rightarrow> string \<Rightarrow> string list" where
  "split_ws_from cur [] = (if cur = [] then [] else [rev cur])"
| "split_ws_from cur (c # cs) =
     (if is_space c
      then (if cur = [] then split_ws_from [] cs else rev cur # split_ws_from [] cs)
      else split_ws_from (c # cur) cs)"

definition split_ws :: "string \<Rightarrow> string list" where
  "split_ws s = split_ws_from [] s"

text \<open>The character class \<open>[A-Za-z0-9]\<close> of the regular expression.\<close>

definition is_alnum :: "char \<Rightarrow> bool" where
  "is_alnum c =
     (let n = (of_char c :: nat)
      in (65 \<le> n \<and> n \<le> 90) \<or> (97 \<le> n \<and> n \<le> 122) \<or> (48 \<le> n \<and> n \<le> 57))"

text \<open>
  \<open>re.search(r'(\+[A-Za-z0-9]+)', s)\<close>: the leftmost position holding a \<open>+\<close> followed
  by at least one character of the class; the greedy \<open>+\<close> takes the whole run. The
  result is group 1, or \<open>None\<close> when no position matches.
\<close>

fun search_adduct :: "string \<Rightarrow> string option" where
  "search_adduct [] = None"
| "search_adduct (c # cs) =
     (if c = CHR ''+'' \<and> takeWhile is_alnum cs \<noteq> []
      then Some (c # takeWhile is_alnum cs)
      else search_adduct cs)"


section \<open>Exceptions\<close>

text \<open>
  The exceptions that end a run: \<open>ValueError\<close> of the unpacking at line 58,
  \<open>IndexError\<close> of the indexing at lines 76 and 80, \<open>AttributeError\<close> of the \<open>.str\<close>
  accessor at line 69, \<open>OSError\<close> of the write at line 85, and \<open>RemoteError\<close> for
  whatever a failing fetch at line 61 raises.
\<close>

datatype error = ValueError | IndexError | AttributeError | OSError | RemoteError

section \<open>Data frames\<close>

text \<open>
  A cell is a missing value (\<open>NaN\<close>), a string, or a number (\<open>Other\<close>). The value of a
  number is not tracked: pandas converts it when the type of its column changes, as
  when \<open>pd.concat\<close> fills a column of integers with missing values and the column
  becomes one of floats. A data frame is
  stored by column, as pandas does: its number of rows and the columns in order, each a
  name with its values. The frames of the service carry every column name once; where a
  name occurs twice, \<open>column\<close> reads the first.
\<close>

datatype cell = NaN | Str string | Other

record table =
  nrows :: nat
  cols :: "(string \<times> cell list) list"

definition columns :: "table \<Rightarrow> string list" where
  "columns T = map fst (cols T)"

text \<open>The frames pandas builds are rectangular: every column is as long as the frame.\<close>

definition rectangular :: "table \<Rightarrow> bool" where
  "rectangular T = list_all (\<lambda>(c, vs). length vs = nrows T) (cols T)"

text \<open>\<open>pd.DataFrame()\<close>.\<close>

definition empty_df :: "table" where
  "empty_df = \<lparr>nrows = 0, cols = []\<rparr>"

text \<open>
  The values of column \<open>c\<close>, row by row; a frame without the column reads as missing
  values throughout, which is what \<open>pd.concat\<close> fills in.
\<close>

definition column :: "table \<Rightarrow> string \<Rightarrow> cell list" where
  "column T c = (case map_of (cols T) c of
                   Some vs \<Rightarrow> vs
                 | None \<Rightarrow> replicate (nrows T) NaN)"

text \<open>\<open>df[c] = vs\<close>: an existing column is overwritten in place, a new one goes last.\<close>

definition set_column :: "table \<Rightarrow> string \<Rightarrow> cell list \<Rightarrow> table" where
  "set_column T c vs =
     (if c \<in> set (columns T)
      then T\<lparr>cols := map (\<lambda>(k, old). if k = c then (k, vs) else (k, old)) (cols T)\<rparr>
      else T\<lparr>cols := cols T @ [(c, vs)]\<rparr>)"

text \<open>\<open>df[c] = scalar\<close>: the scalar in every row.\<close>

definition set_scalar :: "table \<Rightarrow> string \<Rightarrow> cell \<Rightarrow> table" where
  "set_scalar T c v = set_column T c (replicate (nrows T) v)"

text \<open>
  \<open>pd.concat([A, B], ignore_index=True)\<close>: the rows of \<open>A\<close>, then those of \<open>B\<close>; the
  columns of \<open>A\<close> in their order, then the columns only \<open>B\<close> has, in theirs; a frame
  lacking a column contributes missing values.
\<close>

definition concat_df :: "table \<Rightarrow> table \<Rightarrow> table" where
  "concat_df A B =
     \<lparr>nrows = nrows A + nrows B,
      cols = map (\<lambda>c. (c, column A c @ column B c))
                 (columns A @ filter (\<lambda>c. c \<notin> set (columns A)) (columns B))\<rparr>"

text \<open>\<open>df.rename(columns={old: new})\<close>.\<close>

definition rename_column :: "table \<Rightarrow> string \<Rightarrow> string \<Rightarrow> table" where
  "rename_column T old new =
     T\<lparr>cols := map (\<lambda>(k, vs). (if k = old then new else k, vs)) (cols T)\<rparr>"

text \<open>
  \<open>series.str.extract(r'(\+[A-Za-z0-9]+)')\<close>, element by element: a string gives its
  first match or a missing value, anything else a missing value.
\<close>

fun extract_cell :: "cell \<Rightarrow> cell" where
  "extract_cell (Str s) = (case search_adduct s of Some m \<Rightarrow> Str m | None \<Rightarrow> NaN)"
| "extract_cell _ = NaN"

text \<open>
  pandas hands out the \<open>.str\<close> accessor only for a column it takes for strings and
  raises \<open>AttributeError\<close> for any other. A column that holds a string passes, whatever
  its other cells are; a column of numbers does not, with or without missing values
  among them. For a column of missing values alone, and for a column without rows, the
  outcome depends on the type the column was built with, which a frame here does not
  carry: such a column is taken to be of floats, the type pandas gives to missing
  values, and the accessor raises.
\<close>

fun is_str :: "cell \<Rightarrow> bool" where
  "is_str (Str s) = True"
| "is_str _ = False"

definition holds_string :: "cell list \<Rightarrow> bool" where
  "holds_string vs = list_ex is_str vs"

definition str_extract :: "cell list \<Rightarrow> error + cell list" where
  "str_extract vs = (if holds_string vs then Inr (map extract_cell vs) else Inl AttributeError)"

section \<open>The remote service and the effects\<close>

text \<open>
  The dataset object of the service: \<open>database_details\<close> holds \<open>str(db)\<close> of each
  database it lists, and \<open>results\<close> answers \<open>dataset.results(database=(name, ver))\<close>,
  \<open>None\<close> standing for a fetch that fails.
\<close>

record dataset =
  database_details :: "string list"
  results :: "string \<times> string \<Rightarrow> table option"

text \<open>
  What the function does to the outside: lines printed, fetches made, files written.
  \<open>accepts\<close> is the file system's side of a write: the paths it lets the function
  open for writing. A path into a directory that does not exist is not among them.
\<close>

record world =
  console :: "string list"
  requests :: "(string \<times> string) list"
  files :: "(string \<times> table) list"
  accepts :: "string \<Rightarrow> bool"

definition print_line :: "string \<Rightarrow> world \<Rightarrow> world" where
  "print_line s w = w\<lparr>console := console w @ [s]\<rparr>"

definition print_lines :: "string list \<Rightarrow> world \<Rightarrow> world" where
  "print_lines ss w = w\<lparr>console := console w @ ss\<rparr>"

text \<open>\<open>df.to_csv(filename, index=False)\<close>: the file, or \<open>OSError\<close> and no file.\<close>

definition to_csv :: "string \<Rightarrow> table \<Rightarrow> world \<Rightarrow> error + world" where
  "to_csv filename T w =
     (if accepts w filename then Inr (w\<lparr>files := files w @ [(filename, T)]\<rparr>)
      else Inl OSError)"

section \<open>download_dataset_results\<close>

text \<open>Lines 31 to 36: the \<open>name version\<close> string of every database.\<close>

definition database_info :: "string list \<Rightarrow> string list" where
  "database_info databases =
     map (\<lambda>db_str. join '' '' (map (strip CHR ''>'') (take 2 (drop 1 (split_on CHR '':'' db_str)))))
         databases"

text \<open>Line 40 and line 76 select with \<open>db.startswith(database)\<close>.\<close>

definition matched :: "string \<Rightarrow> string list \<Rightarrow> string list" where
  "matched d info = filter (\<lambda>db. startswith db d) info"

text \<open>
  Line 58, \<open>name, ver = db.split()\<close>: the two names, or \<open>None\<close> where the
  unpacking raises \<open>ValueError\<close> because the tokens are not exactly two.
\<close>

definition unpack :: "string \<Rightarrow> (string \<times> string) option" where
  "unpack db = (case split_ws db of
                  [name, ver] \<Rightarrow> Some (name, ver)
                | _ \<Rightarrow> None)"

text \<open>Line 59: the test that decides whether a descriptor is fetched.\<close>

definition selects :: "string option \<Rightarrow> string option \<Rightarrow> string \<times> string \<Rightarrow> bool" where
  "selects database version nv =
     (case nv of (name, ver) \<Rightarrow>
        (database = None \<or> database = Some name) \<and> (version = None \<or> version = Some ver))"

text \<open>Line 60: the progress line.\<close>

definition processing_line :: "string \<times> string \<Rightarrow> string" where
  "processing_line nv =
     (case nv of (name, ver) \<Rightarrow> ''Processing database: '' @ name @ '', version: '' @ ver)"

text \<open>Lines 62 to 64: the fetched frame with its two tag columns.\<close>

definition tag_result :: "string \<times> string \<Rightarrow> table \<Rightarrow> table" where
  "tag_result nv result =
     (case nv of (name, ver) \<Rightarrow>
        set_scalar (set_scalar result ''Database'' (Str name)) ''Version'' (Str ver))"

text \<open>
  Lines 57 to 65. Every descriptor is unpacked before the test, so one that does not
  split into exactly two tokens raises even when the filters would skip it; a fetch
  that fails raises as well. What was printed and fetched before stays.
\<close>

fun fetch_loop ::
  "dataset \<Rightarrow> string option \<Rightarrow> string option \<Rightarrow> string list \<Rightarrow> table \<Rightarrow> world
     \<Rightarrow> (error + table) \<times> world" where
  "fetch_loop dataset database version [] results_df w = (Inr results_df, w)"
| "fetch_loop dataset database version (db # rest) results_df w =
     (case unpack db of
        None \<Rightarrow> (Inl ValueError, w)
      | Some nv \<Rightarrow>
          if selects database version nv
          then
            (let w1 = print_line (processing_line nv) w;
                 w2 = w1\<lparr>requests := requests w1 @ [nv]\<rparr>
             in case results dataset nv of
                  None \<Rightarrow> (Inl RemoteError, w2)
                | Some result \<Rightarrow>
                    fetch_loop dataset database version rest
                      (concat_df results_df (tag_result nv result)) w2)
          else fetch_loop dataset database version rest results_df w)"

text \<open>
  The frame the loop has built once it has fetched the frames \<open>ts\<close> for the
  descriptors \<open>sel\<close>: the tagged frames concatenated in that order onto the empty frame.
\<close>

definition combine :: "(string \<times> string) list \<Rightarrow> table list \<Rightarrow> table" where
  "combine sel ts = foldl concat_df empty_df (map2 tag_result sel ts)"

text \<open>Lines 68 and 69; the accessor may raise.\<close>

definition add_adduct :: "table \<Rightarrow> error + table" where
  "add_adduct T =
     (if ''ion'' \<in> set (columns T)
      then (case str_extract (column T ''ion'') of
              Inl e \<Rightarrow> Inl e
            | Inr vs \<Rightarrow> Inr (set_column T ''Adduct'' vs))
      else Inr T)"

text \<open>Lines 71 and 72.\<close>

definition rename_intensity :: "table \<Rightarrow> table" where
  "rename_intensity T =
     (if ''intensity'' \<in> set (columns T)
      then rename_column T ''intensity'' ''maxIntensity''
      else T)"

text \<open>Lines 67 to 72.\<close>

definition derive_columns :: "table \<Rightarrow> error + table" where
  "derive_columns T =
     (case add_adduct T of
        Inl e \<Rightarrow> Inl e
      | Inr A \<Rightarrow> Inr (rename_intensity A))"

text \<open>
  To state what lines 67 to 72 do: \<open>ion_ok\<close> says that the accessor of line 69 does
  not raise on a frame, \<open>adduct_frame\<close> and \<open>derived_frame\<close> are the frames lines 69
  and 72 then leave, and \<open>ion_column_ok\<close> says of the fetched frames that none has an
  \<open>ion\<close> column or that some \<open>ion\<close> column holds a string.
\<close>

definition ion_ok :: "table \<Rightarrow> bool" where
  "ion_ok T = (''ion'' \<in> set (columns T) \<longrightarrow> holds_string (column T ''ion''))"

definition adduct_frame :: "table \<Rightarrow> table" where
  "adduct_frame T =
     (if ''ion'' \<in> set (columns T)
      then set_column T ''Adduct'' (map extract_cell (column T ''ion''))
      else T)"

definition derived_frame :: "table \<Rightarrow> table" where
  "derived_frame T = rename_intensity (adduct_frame T)"

definition ion_column_ok :: "table list \<Rightarrow> bool" where
  "ion_column_ok ts =
     (list_all (\<lambda>t. ''ion'' \<notin> set (columns t)) ts
      \<or> list_ex (\<lambda>t. holds_string (column t ''ion'')) ts)"

text \<open>
  Line 76: \<open>db.split()[1]\<close> of every descriptor that starts with \<open>database\<close>; a
  descriptor with fewer than two tokens raises \<open>IndexError\<close>.
\<close>

fun matched_versions :: "string \<Rightarrow> string list \<Rightarrow> error + string list" where
  "matched_versions d [] = Inr []"
| "matched_versions d (db # rest) =
     (if startswith db d
      then (case split_ws db of
              name # ver # others \<Rightarrow>
                (case matched_versions d rest of
                   Inl e \<Rightarrow> Inl e
                 | Inr vs \<Rightarrow> Inr (ver # vs))
            | _ \<Rightarrow> Inl IndexError)
      else matched_versions d rest)"

text \<open>Lines 75 to 82.\<close>

definition csv_filename :: "string option \<Rightarrow> string list \<Rightarrow> error + string" where
  "csv_filename database info =
     (case database of
        None \<Rightarrow> Inr ''all_databases.csv''
      | Some d \<Rightarrow>
          if d = [] then Inr ''all_databases.csv''
          else (case matched_versions d info of
                  Inl e \<Rightarrow> Inl e
                | Inr vs \<Rightarrow>
                    if length vs > 1 then Inr (d @ ''_all_versions.csv'')
                    else (case vs of
                            [] \<Rightarrow> Inl IndexError
                          | v # _ \<Rightarrow> Inr (d @ ''_'' @ v @ ''.csv''))))"

text \<open>Lines 39 to 51: the lines printed by the check of the name filter.\<close>

definition not_found_lines :: "string \<Rightarrow> string list \<Rightarrow> string list" where
  "not_found_lines d info =
     [''Could not find database: '' @ d, ''Available databases and versions:''] @ info"

definition warning_lines :: "string \<Rightarrow> string list \<Rightarrow> string list" where
  "warning_lines d ms =
     [''Warning: Multiple versions found for database '' @ d @ ''.'', ''Available versions:'']
     @ ms"

text \<open>
  Lines 53 to 87, after the check: the loop, the derived columns, the file name, the
  file, the closing line and the returned frame. An exception at any of them ends the
  run there.
\<close>

definition fetch_and_save ::
  "dataset \<Rightarrow> string option \<Rightarrow> string option \<Rightarrow> string list \<Rightarrow> world
     \<Rightarrow> (error + table option) \<times> world" where
  "fetch_and_save dataset database version info w =
     (case fetch_loop dataset database version info empty_df w of
        (Inl e, w1) \<Rightarrow> (Inl e, w1)
      | (Inr combined, w1) \<Rightarrow>
          (case derive_columns combined of
             Inl e \<Rightarrow> (Inl e, w1)
           | Inr results_df \<Rightarrow>
               (case csv_filename database info of
                  Inl e \<Rightarrow> (Inl e, w1)
                | Inr filename \<Rightarrow>
                    (case to_csv filename results_df w1 of
                       Inl e \<Rightarrow> (Inl e, w1)
                     | Inr w2 \<Rightarrow>
                         (Inr (Some results_df),
                          print_line (''Results saved to '' @ filename) w2)))))"

text \<open>
  The whole function, given the dataset object the service returned for
  \<open>dataset_id\<close>. The result is the exception raised or the value returned, \<open>None\<close> or
  the frame, with the effects.
\<close>

definition download_dataset_results ::
  "dataset \<Rightarrow> string option \<Rightarrow> string option \<Rightarrow> world
     \<Rightarrow> (error + table option) \<times> world" where
  "download_dataset_results dataset database version w =
     (let info = database_info (database_details dataset)
      in case database of
           None \<Rightarrow> fetch_and_save dataset database version info w
         | Some d \<Rightarrow>
             if d = [] then fetch_and_save dataset database version info w
             else
               (let matched_databases = matched d info
                in if matched_databases = []
                   then (Inr None, print_lines (not_found_lines d info) w)
                   else if length matched_databases > 1 \<and> version = None
                   then fetch_and_save dataset database version info
                          (print_lines (warning_lines d matched_databases) w)
                   else fetch_and_save dataset database version info w))"

text \<open>
  Before the call: nothing printed, fetched or written, in a working directory without
  subdirectories, where a name is accepted when it holds no slash.
\<close>

definition world0 :: "world" where
  "world0 = \<lparr>console = [], requests = [], files = [],
             accepts = (\<lambda>name. CHR ''/'' \<notin> set name)\<rparr>"

section \<open>Example datasets\<close>

text \<open>
  Five datasets on which the statements below are evaluated: one database in two
  versions beside another database; two databases of which one name is a prefix of the
  other; a database in two versions beside one whose name it begins; a database whose
  version holds a slash; a database whose name holds a space.
\<close>

definition two_row_frame :: "table" where
  "two_row_frame =
     \<lparr>nrows = 2,
      cols = [(''ion'', [Str ''C6H12O6+Na'', Str ''C5H5N5-H'']),
              (''intensity'', [Other, Other])]\<rparr>"

definition one_row_frame :: "table" where
  "one_row_frame = \<lparr>nrows = 1, cols = [(''mz'', [Other]), (''ion'', [Str ''C8H10+K''])]\<rparr>"

definition example_results :: "string \<times> string \<Rightarrow> table option" where
  "example_results nv = (if fst nv = ''KEGG'' then Some one_row_frame else Some two_row_frame)"

definition versions_dataset :: "dataset" where
  "versions_dataset =
     \<lparr>database_details = [''<22:HMDB:v2.5>'', ''<38:HMDB:v4>'', ''<24:KEGG:v1>''],
      results = example_results\<rparr>"

definition prefix_dataset :: "dataset" where
  "prefix_dataset =
     \<lparr>database_details = [''<24:KEGG:v1>'', ''<25:KEGGv2:v1>''],
      results = example_results\<rparr>"

definition endogenous_dataset :: "dataset" where
  "endogenous_dataset =
     \<lparr>database_details = [''<22:HMDB:v2.5>'', ''<38:HMDB:v4>'', ''<26:HMDB-endogenous:v4>''],
      results = example_results\<rparr>"

definition slash_dataset :: "dataset" where
  "slash_dataset =
     \<lparr>database_details = [''<24:KEGG:2017/05>''],
      results = example_results\<rparr>"

definition space_dataset :: "dataset" where
  "space_dataset =
     \<lparr>database_details = [''<19:Core Metabolome:v3>''],
      results = example_results\<rparr>"


section \<open>Facts about the data frame operations\<close>

lemma map_of_replace_same:
  "map_of (map (\<lambda>(k, old). if k = c then (k, vs) else (k, old)) xs) c =
     (if c \<in> fst ` set xs then Some vs else None)"
  by (induction xs) auto

lemma map_of_replace_other:
  "c' \<noteq> c \<Longrightarrow>
   map_of (map (\<lambda>(k, old). if k = c then (k, vs) else (k, old)) xs) c' = map_of xs c'"
  by (induction xs) auto

lemma map_of_replace:
  "map_of (map (\<lambda>(k, old). if k = c then (k, vs) else (k, old)) xs) c' =
     (if c' = c then (if c \<in> fst ` set xs then Some vs else None) else map_of xs c')"
  using map_of_replace_same [of c vs xs] map_of_replace_other [of c' c vs xs] by simp

lemma map_of_append_new:
  "c \<notin> fst ` set xs \<Longrightarrow> map_of (xs @ [(c, vs)]) c' = (if c' = c then Some vs else map_of xs c')"
  by (induction xs) auto

lemma nrows_set_column [simp]: "nrows (set_column T c vs) = nrows T"
  by (simp add: set_column_def)

lemma columns_set_column:
  "columns (set_column T c vs) = (if c \<in> set (columns T) then columns T else columns T @ [c])"
  by (auto simp: set_column_def columns_def split_def intro!: map_idI)

lemma column_set_column:
  "column (set_column T c vs) c' = (if c' = c then vs else column T c')"
proof (cases "c \<in> fst ` set (cols T)")
  case True
  then have "cols (set_column T c vs) = map (\<lambda>(k, old). if k = c then (k, vs) else (k, old)) (cols T)"
    by (simp add: set_column_def columns_def)
  then have "map_of (cols (set_column T c vs)) c' = (if c' = c then Some vs else map_of (cols T) c')"
    using True by (simp only: map_of_replace) simp
  then show ?thesis by (simp add: column_def split: option.splits)
next
  case False
  then have "cols (set_column T c vs) = cols T @ [(c, vs)]"
    by (simp add: set_column_def columns_def)
  then have "map_of (cols (set_column T c vs)) c' = (if c' = c then Some vs else map_of (cols T) c')"
    using False by (simp add: map_of_append_new del: map_of_append)
  then show ?thesis by (simp add: column_def split: option.splits)
qed

lemma nrows_set_scalar [simp]: "nrows (set_scalar T c v) = nrows T"
  by (simp add: set_scalar_def)

lemma column_set_scalar:
  "column (set_scalar T c v) c' = (if c' = c then replicate (nrows T) v else column T c')"
  by (simp add: set_scalar_def column_set_column)

lemma nrows_concat_df [simp]: "nrows (concat_df A B) = nrows A + nrows B"
  by (simp add: concat_df_def)

lemma columns_concat_df:
  "columns (concat_df A B) = columns A @ filter (\<lambda>c. c \<notin> set (columns A)) (columns B)"
  by (simp add: concat_df_def columns_def comp_def)

lemma map_of_tabulate:
  "map_of (map (\<lambda>c. (c, f c)) ks) c = (if c \<in> set ks then Some (f c) else None)"
  by (induction ks) auto

lemma column_absent: "c \<notin> set (columns T) \<Longrightarrow> column T c = replicate (nrows T) NaN"
proof -
  assume "c \<notin> set (columns T)"
  then have "map_of (cols T) c = None"
    by (simp add: columns_def map_of_eq_None_iff)
  then show ?thesis by (simp add: column_def)
qed

lemma column_concat_df: "column (concat_df A B) c = column A c @ column B c"
proof (cases "c \<in> set (columns A) \<or> c \<in> set (columns B)")
  case True
  let ?ks = "columns A @ filter (\<lambda>c. c \<notin> set (columns A)) (columns B)"
  have "cols (concat_df A B) = map (\<lambda>c. (c, column A c @ column B c)) ?ks"
    by (simp add: concat_df_def)
  then have "map_of (cols (concat_df A B)) c = (if c \<in> set ?ks then Some (column A c @ column B c) else None)"
    by (simp only: map_of_tabulate)
  with True show ?thesis by (auto simp: column_def)
next
  case False
  then have "column A c = replicate (nrows A) NaN" "column B c = replicate (nrows B) NaN"
    by (simp_all add: column_absent)
  moreover from False have "column (concat_df A B) c = replicate (nrows A + nrows B) NaN"
    by (simp add: column_absent columns_concat_df)
  ultimately show ?thesis by (simp add: replicate_add)
qed

lemma nrows_tag_result [simp]: "nrows (tag_result nv t) = nrows t"
  by (simp add: tag_result_def split: prod.splits)

lemma column_tag_result:
  "column (tag_result (name, ver) t) c =
     (if c = ''Version'' then replicate (nrows t) (Str ver)
      else if c = ''Database'' then replicate (nrows t) (Str name)
      else column t c)"
  by (simp add: tag_result_def column_set_scalar)

lemma nrows_foldl_concat:
  "nrows (foldl concat_df df ts) = nrows df + sum_list (map nrows ts)"
  by (induction ts arbitrary: df) auto

lemma column_foldl_concat:
  "column (foldl concat_df df ts) c = column df c @ concat (map (\<lambda>t. column t c) ts)"
  by (induction ts arbitrary: df) (auto simp: column_concat_df)

lemma column_empty_df [simp]: "column empty_df c = []"
  by (simp add: column_def empty_df_def)

lemma nrows_empty_df [simp]: "nrows empty_df = 0"
  by (simp add: empty_df_def)

lemma map_of_rename_keys:
  "c \<noteq> old \<Longrightarrow> c \<noteq> new \<Longrightarrow>
   map_of (map (\<lambda>(k, vs). (if k = old then new else k, vs)) xs) c = map_of xs c"
  by (induction xs) auto

lemma column_cong_cols:
  "nrows T' = nrows T \<Longrightarrow> map_of (cols T') c = map_of (cols T) c \<Longrightarrow> column T' c = column T c"
  by (simp add: column_def split: option.splits)

lemma nrows_rename_column [simp]: "nrows (rename_column T old new) = nrows T"
  by (simp add: rename_column_def)

lemma columns_rename_column:
  "columns (rename_column T old new) = map (\<lambda>k. if k = old then new else k) (columns T)"
  by (simp add: rename_column_def columns_def split_def)

lemma column_rename_column:
  assumes "c \<noteq> old" and "c \<noteq> new"
  shows "column (rename_column T old new) c = column T c"
proof -
  have "map_of (map (\<lambda>(k, vs). (if k = old then new else k, vs)) (cols T)) c = map_of (cols T) c"
    using assms by (rule map_of_rename_keys)
  then show ?thesis
    by (intro column_cong_cols) (simp_all add: rename_column_def)
qed

lemma nrows_adduct_frame [simp]: "nrows (adduct_frame T) = nrows T"
  by (simp add: adduct_frame_def)

lemma nrows_rename_intensity [simp]: "nrows (rename_intensity T) = nrows T"
  by (simp add: rename_intensity_def)

lemma nrows_derived_frame [simp]: "nrows (derived_frame T) = nrows T"
  by (simp add: derived_frame_def)

lemma column_rename_intensity:
  "c \<noteq> ''intensity'' \<Longrightarrow> c \<noteq> ''maxIntensity'' \<Longrightarrow> column (rename_intensity T) c = column T c"
  by (simp add: rename_intensity_def column_rename_column)

lemma column_adduct_frame:
  "column (adduct_frame T) c =
     (if c = ''Adduct'' \<and> ''ion'' \<in> set (columns T) then map extract_cell (column T ''ion'')
      else column T c)"
  by (simp add: adduct_frame_def column_set_column)

lemma column_derived_frame:
  "c \<noteq> ''intensity'' \<Longrightarrow> c \<noteq> ''maxIntensity'' \<Longrightarrow>
   column (derived_frame T) c =
     (if c = ''Adduct'' \<and> ''ion'' \<in> set (columns T) then map extract_cell (column T ''ion'')
      else column T c)"
  by (simp add: derived_frame_def column_rename_intensity column_adduct_frame)

lemma derived_frame_empty_df [simp]: "derived_frame empty_df = empty_df"
  by (simp add: derived_frame_def adduct_frame_def rename_intensity_def columns_def empty_df_def)

lemma columns_adduct_frame:
  "columns (adduct_frame T) =
     (if ''ion'' \<in> set (columns T) \<and> ''Adduct'' \<notin> set (columns T)
      then columns T @ [''Adduct''] else columns T)"
  by (simp add: adduct_frame_def columns_set_column)

lemma intensity_not_in_rename_intensity:
  "''intensity'' \<notin> set (columns (rename_intensity T))"
  by (auto simp: rename_intensity_def columns_rename_column)

lemma maxIntensity_in_rename_intensity:
  "''intensity'' \<in> set (columns T) \<Longrightarrow> ''maxIntensity'' \<in> set (columns (rename_intensity T))"
  by (auto simp: rename_intensity_def columns_rename_column)

lemma rename_intensity_idem: "rename_intensity (rename_intensity T) = rename_intensity T"
  using intensity_not_in_rename_intensity [of T]
  by (simp add: rename_intensity_def [of "rename_intensity T"])

lemma replace_absent:
  "c \<notin> fst ` set xs \<Longrightarrow> map (\<lambda>(k, old). if k = c then (k, vs) else (k, old)) xs = xs"
  by (induction xs) auto

lemma replace_twice:
  "(\<lambda>(k, old). if k = c then (k, vs) else (k, old)) \<circ>
   (\<lambda>(k, old). if k = c then (k, vs) else (k, old))
   = (\<lambda>(k, old). if k = c then (k, vs) else (k, old))"
  by (auto simp: fun_eq_iff)

lemma set_column_twice: "set_column (set_column T c vs) c vs = set_column T c vs"
proof (cases "c \<in> set (columns T)")
  case True
  then have "c \<in> set (columns (set_column T c vs))" by (simp add: columns_set_column)
  then show ?thesis using True
    by (simp add: set_column_def [of "set_column T c vs"]) (simp add: set_column_def replace_twice)
next
  case False
  then have "c \<in> set (columns (set_column T c vs))" by (simp add: columns_set_column)
  then show ?thesis using False
    by (simp add: set_column_def [of "set_column T c vs"])
       (simp add: set_column_def replace_absent columns_def)
qed

lemma adduct_frame_idem: "adduct_frame (adduct_frame T) = adduct_frame T"
proof (cases "''ion'' \<in> set (columns T)")
  case True
  let ?vs = "map extract_cell (column T ''ion'')"
  have T1: "adduct_frame T = set_column T ''Adduct'' ?vs" using True by (simp add: adduct_frame_def)
  have "''ion'' \<in> set (columns (adduct_frame T))" using True by (simp add: columns_adduct_frame)
  moreover have "column (adduct_frame T) ''ion'' = column T ''ion''" by (simp add: column_adduct_frame)
  ultimately have "adduct_frame (adduct_frame T) = set_column (adduct_frame T) ''Adduct'' ?vs"
    by (simp add: adduct_frame_def [of "adduct_frame T"])
  then show ?thesis by (simp add: T1 set_column_twice)
next
  case False
  then show ?thesis by (simp add: adduct_frame_def)
qed

lemma rename_set_column_commute:
  assumes "c \<noteq> old" and "c \<noteq> new"
  shows "rename_column (set_column T c vs) old new = set_column (rename_column T old new) c vs"
proof -
  have mem: "c \<in> set (columns (rename_column T old new)) \<longleftrightarrow> c \<in> set (columns T)"
    using assms by (auto simp: columns_rename_column)
  have "map (\<lambda>(k, vs). (if k = old then new else k, vs))
          (map (\<lambda>(k, old). if k = c then (k, vs) else (k, old)) xs)
      = map (\<lambda>(k, old). if k = c then (k, vs) else (k, old))
          (map (\<lambda>(k, vs). (if k = old then new else k, vs)) xs)" for xs :: "(string \<times> cell list) list"
    using assms by (induction xs) auto
  then show ?thesis
    using assms mem
    by (simp add: set_column_def [of "rename_column T old new"])
       (simp add: set_column_def rename_column_def)
qed

lemma derive_steps_commute: "rename_intensity (adduct_frame T) = adduct_frame (rename_intensity T)"
proof (cases "''intensity'' \<in> set (columns T)")
  case int: True
  show ?thesis
  proof (cases "''ion'' \<in> set (columns T)")
    case True
    have 1: "''intensity'' \<in> set (columns (adduct_frame T))" using int by (simp add: columns_adduct_frame)
    have 2: "''ion'' \<in> set (columns (rename_intensity T))"
      using True int by (auto simp: rename_intensity_def columns_rename_column)
    have 3: "column (rename_intensity T) ''ion'' = column T ''ion''"
      by (simp add: column_rename_intensity)
    have "rename_intensity (adduct_frame T)
            = rename_column (set_column T ''Adduct'' (map extract_cell (column T ''ion''))) ''intensity'' ''maxIntensity''"
      using 1 True by (simp add: rename_intensity_def [of "adduct_frame T"]) (simp add: adduct_frame_def)
    also have "\<dots> = set_column (rename_column T ''intensity'' ''maxIntensity'') ''Adduct'' (map extract_cell (column T ''ion''))"
      by (simp add: rename_set_column_commute)
    also have "\<dots> = adduct_frame (rename_intensity T)"
      using 2 3 int by (simp add: adduct_frame_def [of "rename_intensity T"]) (simp add: rename_intensity_def)
    finally show ?thesis .
  next
    case False
    then have "''ion'' \<notin> set (columns (rename_intensity T))"
      by (auto simp: rename_intensity_def columns_rename_column)
    with False show ?thesis by (simp add: adduct_frame_def)
  qed
next
  case False
  then have "''intensity'' \<notin> set (columns (adduct_frame T))" by (simp add: columns_adduct_frame)
  with False show ?thesis by (simp add: rename_intensity_def)
qed

lemma derived_frame_idem: "derived_frame (derived_frame T) = derived_frame T"
proof -
  have "derived_frame (derived_frame T) = rename_intensity (rename_intensity (adduct_frame (adduct_frame T)))"
    by (simp add: derived_frame_def derive_steps_commute)
  then show ?thesis by (simp add: derived_frame_def rename_intensity_idem adduct_frame_idem)
qed

lemma rectangular_column: "rectangular T \<Longrightarrow> length (column T c) = nrows T"
proof (cases "map_of (cols T) c")
  case None
  then show ?thesis by (simp add: column_def)
next
  case (Some vs)
  assume "rectangular T"
  moreover from Some have "(c, vs) \<in> set (cols T)" by (rule map_of_SomeD)
  ultimately have "length vs = nrows T"
    by (auto simp: rectangular_def list_all_iff)
  with Some show ?thesis by (simp add: column_def)
qed

lemma rectangular_empty_df [simp]: "rectangular empty_df"
  by (simp add: rectangular_def empty_df_def)

lemma rectangular_set_column:
  "rectangular T \<Longrightarrow> length vs = nrows T \<Longrightarrow> rectangular (set_column T c vs)"
  by (auto simp: rectangular_def set_column_def list_all_iff split: if_splits)

lemma rectangular_set_scalar: "rectangular T \<Longrightarrow> rectangular (set_scalar T c v)"
  by (simp add: set_scalar_def rectangular_set_column)

lemma rectangular_tag_result: "rectangular t \<Longrightarrow> rectangular (tag_result nv t)"
  by (cases nv) (simp add: tag_result_def rectangular_set_scalar)

lemma rectangular_concat_df:
  "rectangular A \<Longrightarrow> rectangular B \<Longrightarrow> rectangular (concat_df A B)"
proof -
  assume "rectangular A" "rectangular B"
  then have "length (column A c @ column B c) = nrows A + nrows B" for c
    by (simp add: rectangular_column)
  then show ?thesis
    by (auto simp: rectangular_def concat_df_def list_all_iff)
qed

lemma rectangular_rename_column: "rectangular T \<Longrightarrow> rectangular (rename_column T old new)"
  by (auto simp: rectangular_def rename_column_def list_all_iff)

lemma rectangular_foldl_concat:
  "rectangular df \<Longrightarrow> list_all rectangular ts \<Longrightarrow> rectangular (foldl concat_df df ts)"
  by (induction ts arbitrary: df) (simp_all add: rectangular_concat_df)

lemma rectangular_combine:
  "list_all rectangular ts \<Longrightarrow> rectangular (combine sel ts)"
proof -
  assume ts: "list_all rectangular ts"
  have "list_all rectangular (map2 tag_result sel ts)"
    using ts by (auto simp: list_all_iff rectangular_tag_result dest: set_zip_rightD)
  then show ?thesis
    unfolding combine_def by (intro rectangular_foldl_concat) simp_all
qed

lemma rectangular_derived_frame: "rectangular T \<Longrightarrow> rectangular (derived_frame T)"
  by (simp add: derived_frame_def rename_intensity_def adduct_frame_def rectangular_rename_column
        rectangular_set_column rectangular_column)

lemma add_adduct_eq:
  "add_adduct T = (if ion_ok T then Inr (adduct_frame T) else Inl AttributeError)"
  by (simp add: add_adduct_def adduct_frame_def ion_ok_def str_extract_def)

lemma derive_columns_eq:
  "derive_columns T = (if ion_ok T then Inr (derived_frame T) else Inl AttributeError)"
  by (simp add: derive_columns_def add_adduct_eq derived_frame_def)

lemma holds_string_append [simp]:
  "holds_string (xs @ ys) \<longleftrightarrow> holds_string xs \<or> holds_string ys"
  by (simp add: holds_string_def)

lemma holds_string_concat:
  "holds_string (concat xss) \<longleftrightarrow> (\<exists>xs \<in> set xss. holds_string xs)"
  by (induction xss) (simp_all add: holds_string_def)

lemma holds_string_replicate_NaN [simp]: "\<not> holds_string (replicate n NaN)"
  by (simp add: holds_string_def list_ex_iff)

lemma holds_string_column:
  "holds_string (column T c) \<Longrightarrow> c \<in> set (columns T)"
  by (rule ccontr) (simp add: column_absent)

lemma columns_empty_df [simp]: "columns empty_df = []"
  by (simp add: columns_def empty_df_def)

lemma ion_ok_empty_df [simp]: "ion_ok empty_df"
  by (simp add: ion_ok_def)

lemma columns_rename_intensity_ion:
  "''ion'' \<in> set (columns (rename_intensity T)) \<longleftrightarrow> ''ion'' \<in> set (columns T)"
  by (auto simp: rename_intensity_def columns_rename_column)

lemma ion_ok_derived_frame: "ion_ok T \<Longrightarrow> ion_ok (derived_frame T)"
  by (simp add: ion_ok_def derived_frame_def columns_rename_intensity_ion columns_adduct_frame
        column_rename_intensity column_adduct_frame)

lemma set_columns_concat_df:
  "set (columns (concat_df A B)) = set (columns A) \<union> set (columns B)"
  by (auto simp: columns_concat_df)

lemma set_columns_set_column:
  "set (columns (set_column T c vs)) = insert c (set (columns T))"
  by (auto simp: columns_set_column)

lemma set_columns_tag_result:
  "set (columns (tag_result nv t)) = {''Database'', ''Version''} \<union> set (columns t)"
  by (cases nv) (auto simp: tag_result_def set_scalar_def set_columns_set_column)

lemma set_columns_foldl_concat:
  "set (columns (foldl concat_df df ts)) = set (columns df) \<union> (\<Union>t \<in> set ts. set (columns t))"
  by (induction ts arbitrary: df) (auto simp: set_columns_concat_df)

lemma ion_ok_rename_intensity: "ion_ok (rename_intensity T) \<longleftrightarrow> ion_ok T"
  by (simp add: ion_ok_def columns_rename_intensity_ion column_rename_intensity)

lemma add_adduct_rename_intensity:
  "add_adduct (rename_intensity T) =
     (case add_adduct T of Inl e \<Rightarrow> Inl e | Inr A \<Rightarrow> Inr (rename_intensity A))"
  by (simp add: add_adduct_eq ion_ok_rename_intensity derive_steps_commute)

section \<open>Facts about the fetch loop and the file name\<close>

lemma fetch_loop_ok:
  assumes "map unpack info = map Some pairs"
      and "map (results ds) (filter (selects database version) pairs) = map Some tables"
  shows "fetch_loop ds database version info df w =
     (Inr (foldl concat_df df (map2 tag_result (filter (selects database version) pairs) tables)),
      w\<lparr>console := console w @ map processing_line (filter (selects database version) pairs),
        requests := requests w @ filter (selects database version) pairs\<rparr>)"
  using assms
proof (induction info arbitrary: pairs tables df w)
  case Nil
  then show ?case by simp
next
  case (Cons db rest)
  from Cons.prems(1) obtain p ps where pairs: "pairs = p # ps" and db: "unpack db = Some p"
    and rest: "map unpack rest = map Some ps"
    by (cases pairs) auto
  show ?case
  proof (cases "selects database version p")
    case True
    with Cons.prems(2) pairs obtain t ts where tables: "tables = t # ts"
      and t: "results ds p = Some t"
      and ts: "map (results ds) (filter (selects database version) ps) = map Some ts"
      by (cases tables) auto
    show ?thesis
      using True db t pairs tables Cons.IH [OF rest ts]
      by (simp add: print_line_def)
  next
    case False
    with Cons.prems(2) pairs
    have ts: "map (results ds) (filter (selects database version) ps) = map Some tables"
      by simp
    show ?thesis
      using False db pairs Cons.IH [OF rest ts] by simp
  qed
qed

lemma fetch_loop_files: "files (snd (fetch_loop ds database version info df w)) = files w"
  by (induction info arbitrary: df w)
     (auto simp: print_line_def Let_def split: option.splits)

lemma fetch_loop_malformed:
  assumes "\<exists>db \<in> set info. unpack db = None"
  shows "fst (fetch_loop ds database version info df w) = Inl ValueError
       \<or> fst (fetch_loop ds database version info df w) = Inl RemoteError"
  using assms
  by (induction info arbitrary: df w) (auto simp: Let_def split: option.splits)

lemma fetch_loop_malformed_ValueError:
  assumes "\<exists>db \<in> set info. unpack db = None" and "\<forall>nv. results ds nv \<noteq> None"
  shows "fst (fetch_loop ds database version info df w) = Inl ValueError"
  using assms
proof (induction info arbitrary: df w)
  case Nil
  then show ?case by simp
next
  case (Cons db rest)
  show ?case
  proof (cases "unpack db")
    case None
    then show ?thesis by simp
  next
    case (Some nv)
    with Cons.prems(1) have rest: "\<exists>db \<in> set rest. unpack db = None" by auto
    from Cons.prems(2) have "results ds nv \<noteq> None" by (rule spec)
    then obtain t where t: "results ds nv = Some t" by blast
    show ?thesis
      using Some t Cons.IH [OF rest Cons.prems(2)] by (simp add: Let_def)
  qed
qed

lemma matched_versions_ok:
  assumes "\<forall>db \<in> set info. unpack db \<noteq> None"
  shows "matched_versions d info = Inr (map (\<lambda>db. snd (the (unpack db))) (matched d info))"
  using assms
proof (induction info)
  case Nil
  show ?case by (simp add: matched_def)
next
  case (Cons db rest)
  then obtain name ver where "split_ws db = [name, ver]"
    by (auto simp: unpack_def split: list.splits)
  with Cons show ?case
    by (simp add: matched_def unpack_def)
qed

lemma unpack_all_ok:
  "map unpack info = map Some pairs \<Longrightarrow> \<forall>db \<in> set info. unpack db \<noteq> None"
proof (induction info arbitrary: pairs)
  case Nil
  show ?case by simp
next
  case (Cons db rest)
  then obtain p ps where "pairs = p # ps" "unpack db = Some p" "map unpack rest = map Some ps"
    by (cases pairs) auto
  with Cons.IH show ?case by auto
qed

lemma csv_filename_None [simp]: "csv_filename None info = Inr ''all_databases.csv''"
  by (simp add: csv_filename_def)

lemma csv_filename_empty [simp]: "csv_filename (Some []) info = Inr ''all_databases.csv''"
  by (simp add: csv_filename_def)


lemma csv_filename_one:
  assumes "d \<noteq> []" and "\<forall>db \<in> set info. unpack db \<noteq> None" and "matched d info = [m]"
      and "unpack m = Some (name, ver)"
  shows "csv_filename (Some d) info = Inr (d @ ''_'' @ ver @ ''.csv'')"
  using assms by (simp add: csv_filename_def matched_versions_ok)

lemma nrows_tagged:
  "length sel = length ts \<Longrightarrow>
   sum_list (map nrows (map2 tag_result sel ts)) = sum_list (map nrows ts)"
  by (induction sel ts rule: list_induct2) simp_all

lemma nrows_combine:
  "length sel = length ts \<Longrightarrow> nrows (combine sel ts) = sum_list (map nrows ts)"
  unfolding combine_def by (simp only: nrows_foldl_concat nrows_tagged nrows_empty_df add_0)

lemma column_tag_result_nv:
  "column (tag_result nv t) c =
     (if c = ''Version'' then replicate (nrows t) (Str (snd nv))
      else if c = ''Database'' then replicate (nrows t) (Str (fst nv))
      else column t c)"
  by (cases nv) (simp only: column_tag_result fst_conv snd_conv)

lemma columns_tagged:
  "length sel = length ts \<Longrightarrow>
   concat (map (\<lambda>t. column t c) (map2 tag_result sel ts)) =
     (if c = ''Version'' then concat (map2 (\<lambda>nv t. replicate (nrows t) (Str (snd nv))) sel ts)
      else if c = ''Database'' then concat (map2 (\<lambda>nv t. replicate (nrows t) (Str (fst nv))) sel ts)
      else concat (map (\<lambda>t. column t c) ts))"
  by (induction sel ts rule: list_induct2) (simp_all add: column_tag_result_nv)

lemma column_combine:
  "length sel = length ts \<Longrightarrow>
   column (combine sel ts) c =
     (if c = ''Version'' then concat (map2 (\<lambda>nv t. replicate (nrows t) (Str (snd nv))) sel ts)
      else if c = ''Database'' then concat (map2 (\<lambda>nv t. replicate (nrows t) (Str (fst nv))) sel ts)
      else concat (map (\<lambda>t. column t c) ts))"
  unfolding combine_def
  by (simp only: column_foldl_concat columns_tagged column_empty_df append_Nil)

lemma fetch_loop_combine:
  assumes "map unpack info = map Some pairs"
      and "map (results ds) (filter (selects database version) pairs) = map Some tables"
  shows "fetch_loop ds database version info empty_df w =
     (Inr (combine (filter (selects database version) pairs) tables),
      w\<lparr>console := console w @ map processing_line (filter (selects database version) pairs),
        requests := requests w @ filter (selects database version) pairs\<rparr>)"
  unfolding combine_def by (rule fetch_loop_ok [OF assms])

lemma ion_in_foldl_tagged:
  "length sel = length ts \<Longrightarrow>
   ''ion'' \<in> set (columns (foldl concat_df df (map2 tag_result sel ts)))
     \<longleftrightarrow> ''ion'' \<in> set (columns df) \<or> (\<exists>t \<in> set ts. ''ion'' \<in> set (columns t))"
  by (induction sel ts arbitrary: df rule: list_induct2)
     (auto simp: set_columns_concat_df set_columns_tag_result)

lemma ion_in_combine:
  assumes "length sel = length ts"
  shows "''ion'' \<in> set (columns (combine sel ts)) \<longleftrightarrow> (\<exists>t \<in> set ts. ''ion'' \<in> set (columns t))"
  unfolding combine_def by (simp only: ion_in_foldl_tagged [OF assms]) simp

lemma ion_ok_combine:
  assumes "length sel = length ts"
  shows "ion_ok (combine sel ts) \<longleftrightarrow> ion_column_ok ts"
proof -
  have col: "column (combine sel ts) ''ion'' = concat (map (\<lambda>t. column t ''ion'') ts)"
    by (simp add: column_combine [OF assms])
  have str: "holds_string (column (combine sel ts) ''ion'')
               \<longleftrightarrow> (\<exists>t \<in> set ts. holds_string (column t ''ion''))"
    by (simp add: col holds_string_concat)
  show ?thesis
    unfolding ion_ok_def ion_column_ok_def ion_in_combine [OF assms] str
    by (auto simp: list_all_iff list_ex_iff dest: holds_string_column)
qed

lemma fetch_and_save_ok:
  assumes "map unpack info = map Some pairs"
      and "map (results ds) (filter (selects database version) pairs) = map Some tables"
      and "ion_column_ok tables"
      and "csv_filename database info = Inr filename"
      and "accepts w filename"
  shows "fetch_and_save ds database version info w =
     (Inr (Some (derived_frame (combine (filter (selects database version) pairs) tables))),
      w\<lparr>console := console w @ map processing_line (filter (selects database version) pairs)
                     @ [''Results saved to '' @ filename],
        requests := requests w @ filter (selects database version) pairs,
        files := files w @ [(filename,
                   derived_frame (combine (filter (selects database version) pairs) tables))]\<rparr>)"
proof -
  have len: "length (filter (selects database version) pairs) = length tables"
    using assms(2) by (metis length_map)
  have ok: "ion_ok (combine (filter (selects database version) pairs) tables)"
    using assms(3) by (simp add: ion_ok_combine [OF len])
  show ?thesis
    using assms(4) assms(5) ok
    by (simp add: fetch_and_save_def fetch_loop_combine [OF assms(1) assms(2)] derive_columns_eq
          to_csv_def print_line_def)
qed

lemma fetch_and_save_refused:
  assumes "map unpack info = map Some pairs"
      and "map (results ds) (filter (selects database version) pairs) = map Some tables"
      and "ion_column_ok tables"
      and "csv_filename database info = Inr filename"
      and "\<not> accepts w filename"
  shows "fst (fetch_and_save ds database version info w) = Inl OSError
         \<and> files (snd (fetch_and_save ds database version info w)) = files w"
proof -
  have len: "length (filter (selects database version) pairs) = length tables"
    using assms(2) by (metis length_map)
  have ok: "ion_ok (combine (filter (selects database version) pairs) tables)"
    using assms(3) by (simp add: ion_ok_combine [OF len])
  show ?thesis
    using assms(4) assms(5) ok
    by (simp add: fetch_and_save_def fetch_loop_combine [OF assms(1) assms(2)] derive_columns_eq
          to_csv_def)
qed

lemma download_None:
  "download_dataset_results ds None version w =
     fetch_and_save ds None version (database_info (database_details ds)) w"
  by (simp add: download_dataset_results_def)

lemma download_Some:
  assumes "d \<noteq> []" and "matched d (database_info (database_details ds)) \<noteq> []"
  shows "download_dataset_results ds (Some d) version w =
     fetch_and_save ds (Some d) version (database_info (database_details ds))
       (if length (matched d (database_info (database_details ds))) > 1 \<and> version = None
        then print_lines (warning_lines d (matched d (database_info (database_details ds)))) w
        else w)"
  using assms by (simp add: download_dataset_results_def Let_def)

lemma same_name_blocks:
  "length sel = length ts \<Longrightarrow> \<forall>nv \<in> set sel. fst nv = d \<Longrightarrow>
   concat (map2 (\<lambda>nv t. replicate (nrows t) (Str (fst nv))) sel ts)
     = replicate (sum_list (map nrows ts)) (Str d)"
  by (induction sel ts rule: list_induct2) (simp_all add: replicate_add)

lemma selects_None_None [simp]: "filter (selects None None) pairs = pairs"
  by (simp add: selects_def split_def)

lemma selects_Some_None: "selects (Some d) None = (\<lambda>nv. fst nv = d)"
  by (auto simp: fun_eq_iff selects_def)


lemma combine_Nil [simp]: "combine [] ts = empty_df"
  by (simp add: combine_def)

lemma fetch_and_save_raises:
  assumes "fst (fetch_loop ds database version info empty_df w) = Inl e"
  shows "fst (fetch_and_save ds database version info w) = Inl e
         \<and> files (snd (fetch_and_save ds database version info w)) = files w"
proof -
  obtain r w1 where run: "fetch_loop ds database version info empty_df w = (r, w1)"
    by (cases "fetch_loop ds database version info empty_df w")
  with assms have r: "r = Inl e" by simp
  have "files w1 = files w"
    using fetch_loop_files [of ds database version info empty_df w] run by simp
  then show ?thesis
    by (simp add: fetch_and_save_def run r)
qed

lemma download_reaches_loop:
  assumes "\<forall>d. database = Some d \<and> d \<noteq> [] \<longrightarrow> matched d (database_info (database_details ds)) \<noteq> []"
  shows "\<exists>w0. download_dataset_results ds database version w =
                 fetch_and_save ds database version (database_info (database_details ds)) w0
              \<and> files w0 = files w"
proof (cases database)
  case None
  then show ?thesis by (auto simp: download_None)
next
  case (Some d)
  show ?thesis
  proof (cases "d = []")
    case True
    with Some show ?thesis by (auto simp: download_dataset_results_def)
  next
    case False
    with assms Some have "matched d (database_info (database_details ds)) \<noteq> []" by simp
    from download_Some [OF False this] Some show ?thesis
      by (auto simp: print_lines_def)
  qed
qed

section \<open>Facts about the search for the adduct\<close>

lemma takeWhile_nonempty: "takeWhile P xs \<noteq> [] \<longleftrightarrow> xs \<noteq> [] \<and> P (hd xs)"
  by (cases xs) auto






section \<open>Facts about the example datasets\<close>

lemma versions_info:
  "database_info (database_details versions_dataset) = [''HMDB v2.5'', ''HMDB v4'', ''KEGG v1'']"
  by (simp add: versions_dataset_def database_info_def strip_def)


lemma space_info:
  "database_info (database_details space_dataset) = [''Core Metabolome v3'']"
  by (simp add: space_dataset_def database_info_def strip_def)

lemma versions_unpack:
  "map unpack [''HMDB v2.5'', ''HMDB v4'', ''KEGG v1'']
     = map Some [(''HMDB'', ''v2.5''), (''HMDB'', ''v4''), (''KEGG'', ''v1'')]"
  by (simp add: unpack_def split_ws_def is_space_def)


lemma slash_info:
  "database_info (database_details slash_dataset) = [''KEGG 2017/05'']"
  by (simp add: slash_dataset_def database_info_def strip_def)

lemma slash_unpack: "map unpack [''KEGG 2017/05''] = map Some [(''KEGG'', ''2017/05'')]"
  by (simp add: unpack_def split_ws_def is_space_def)

lemma endogenous_info:
  "database_info (database_details endogenous_dataset)
     = [''HMDB v2.5'', ''HMDB v4'', ''HMDB-endogenous v4'']"
  by (simp add: endogenous_dataset_def database_info_def strip_def)

lemma endogenous_unpack:
  "map unpack [''HMDB v2.5'', ''HMDB v4'', ''HMDB-endogenous v4'']
     = map Some [(''HMDB'', ''v2.5''), (''HMDB'', ''v4''), (''HMDB-endogenous'', ''v4'')]"
  by (simp add: unpack_def split_ws_def is_space_def)

lemma selects_None: "selects None version = (\<lambda>nv. version = None \<or> version = Some (snd nv))"
  by (auto simp: fun_eq_iff selects_def)

lemma space_unpack: "unpack ''Core Metabolome v3'' = None"
  by (simp add: unpack_def split_ws_def is_space_def)

lemma replicate_two: "replicate 2 x = [x, x]"
  by (simp only: numeral_2_eq_2 replicate.simps)

lemma example_frames:
  "nrows two_row_frame = 2" "nrows one_row_frame = 1"
  "column two_row_frame ''ion'' = [Str ''C6H12O6+Na'', Str ''C5H5N5-H'']"
  "column one_row_frame ''ion'' = [Str ''C8H10+K'']"
  "column two_row_frame ''mz'' = [NaN, NaN]"
  "column one_row_frame ''mz'' = [Other]"
  by (simp_all add: column_def two_row_frame_def one_row_frame_def replicate_two)

lemma example_frames_ion:
  "holds_string (column two_row_frame ''ion'')" "holds_string (column one_row_frame ''ion'')"
  by (simp_all add: example_frames holds_string_def)


section \<open>The column deriver\<close>

text \<open>
  Claim C8. On a frame whose \<open>ion\<close> column, if there is one, holds a string, lines 67 to
  72 succeed, and applied to their own output they succeed again and change nothing:
  the frame is the same, \<open>intensity\<close> is gone and \<open>maxIntensity\<close> is there whenever
  \<open>intensity\<close> was, and \<open>Adduct\<close>, extracted again from the \<open>ion\<close> column that is still
  present, has the same values. On a frame whose \<open>ion\<close> column holds no string line 69
  raises, whichever step comes first: the two steps commute on every frame, the
  exception included.
\<close>

theorem derive_columns_idempotent:
  "(ion_ok T \<longrightarrow>
      (\<exists>F. derive_columns T = Inr F
           \<and> derive_columns F = Inr F
           \<and> ''intensity'' \<notin> set (columns F)
           \<and> (''intensity'' \<in> set (columns T) \<longrightarrow> ''maxIntensity'' \<in> set (columns F))
           \<and> (''ion'' \<in> set (columns T) \<longrightarrow>
                 ''ion'' \<in> set (columns F)
                 \<and> column F ''ion'' = column T ''ion''
                 \<and> column F ''Adduct'' = map extract_cell (column T ''ion''))))
   \<and> (case add_adduct T of Inl e \<Rightarrow> Inl e | Inr A \<Rightarrow> Inr (rename_intensity A))
       = add_adduct (rename_intensity T)"
proof -
  let ?F = "derived_frame T"
  have again: "derive_columns ?F = Inr ?F" if "ion_ok T"
    using that by (simp add: derive_columns_eq ion_ok_derived_frame derived_frame_idem)
  have no_int: "''intensity'' \<notin> set (columns ?F)"
    by (simp add: derived_frame_def intensity_not_in_rename_intensity)
  have max_int: "''maxIntensity'' \<in> set (columns ?F)" if "''intensity'' \<in> set (columns T)"
  proof -
    from that have "''intensity'' \<in> set (columns (adduct_frame T))"
      by (simp add: columns_adduct_frame)
    then show ?thesis
      unfolding derived_frame_def by (rule maxIntensity_in_rename_intensity)
  qed
  have ion: "''ion'' \<in> set (columns ?F)" if "''ion'' \<in> set (columns T)"
    using that by (simp add: derived_frame_def columns_rename_intensity_ion columns_adduct_frame)
  have cols: "column ?F ''ion'' = column T ''ion''"
    "''ion'' \<in> set (columns T) \<Longrightarrow> column ?F ''Adduct'' = map extract_cell (column T ''ion'')"
    by (simp_all add: column_derived_frame)
  show ?thesis
    using again no_int max_int ion cols
    by (simp add: derive_columns_eq add_adduct_rename_intensity)
qed

theorem derive_columns_idempotent_witness:
  "ion_ok two_row_frame
   \<and> ''intensity'' \<in> set (columns two_row_frame) \<and> ''ion'' \<in> set (columns two_row_frame)
   \<and> (\<exists>F. derive_columns two_row_frame = Inr F \<and> derive_columns F = Inr F
          \<and> ''intensity'' \<notin> set (columns F) \<and> ''maxIntensity'' \<in> set (columns F)
          \<and> column F ''Adduct'' = [Str ''+Na'', NaN])"
proof -
  have h: "''intensity'' \<in> set (columns two_row_frame)" "''ion'' \<in> set (columns two_row_frame)"
    by (simp_all add: two_row_frame_def columns_def)
  have ok: "ion_ok two_row_frame"
    by (simp add: ion_ok_def example_frames holds_string_def)
  have v: "map extract_cell (column two_row_frame ''ion'') = [Str ''+Na'', NaN]"
    by (simp add: example_frames is_alnum_def)
  show ?thesis
    using derive_columns_idempotent [of two_row_frame] h ok v by auto
qed

section \<open>The name filter that matches nothing\<close>

text \<open>
  Claim C3. When \<open>database\<close> is a non-empty string (the test \<open>if database:\<close>) and no
  descriptor starts with it, the function prints the failure line, the heading and every
  available \<open>name version\<close> string, returns \<open>None\<close>, fetches nothing and writes no file.
\<close>

theorem unmatched_database_returns_None:
  assumes "d \<noteq> []"
      and "matched d (database_info (database_details dataset)) = []"
  shows "download_dataset_results dataset (Some d) version w =
           (Inr None,
            w\<lparr>console := console w @ not_found_lines d (database_info (database_details dataset))\<rparr>)
         \<and> requests (snd (download_dataset_results dataset (Some d) version w)) = requests w
         \<and> files (snd (download_dataset_results dataset (Some d) version w)) = files w"
  using assms by (simp add: download_dataset_results_def print_lines_def)

theorem unmatched_database_returns_None_witness:
  "download_dataset_results versions_dataset (Some ''LipidMaps'') None world0 =
     (Inr None,
      \<lparr>console = [''Could not find database: LipidMaps'', ''Available databases and versions:'',
                  ''HMDB v2.5'', ''HMDB v4'', ''KEGG v1''],
       requests = [], files = [], accepts = accepts world0\<rparr>)"
proof -
  have info: "database_info (database_details versions_dataset) = [''HMDB v2.5'', ''HMDB v4'', ''KEGG v1'']"
    by (simp add: versions_dataset_def database_info_def strip_def)
  have m: "matched ''LipidMaps'' (database_info (database_details versions_dataset)) = []"
    by (simp add: info matched_def startswith_def)
  have d: "''LipidMaps'' \<noteq> []" by simp
  show ?thesis
    using unmatched_database_returns_None [OF d m, of None world0]
    by (simp add: info not_found_lines_def world0_def)
qed

section \<open>The adduct column\<close>



section \<open>File names\<close>

text \<open>
  Claim C5. When exactly one descriptor starts with \<open>database\<close>, a string that is not
  empty (the test \<open>if database:\<close> of line 75), the file name of line 80 is
  \<open>{database}_{version}.csv\<close>, the version being the second token of that descriptor. A
  run that reaches line 85 (every descriptor unpacks into two tokens, every selected
  fetch succeeds, and the \<open>ion\<close> column, if any, holds a string) writes the returned
  frame under that name when the file system accepts the name; when it does not, as
  for a version with a slash in a directory without the subdirectory, line 85 raises
  \<open>OSError\<close> and no file is written.
\<close>

theorem single_match_filename:
  assumes "d \<noteq> []"
      and "matched d (database_info (database_details ds)) = [m]"
      and "unpack m = Some (name, ver)"
      and "map unpack (database_info (database_details ds)) = map Some pairs"
      and "map (results ds) (filter (selects (Some d) version) pairs) = map Some tables"
      and "ion_column_ok tables"
  shows "csv_filename (Some d) (database_info (database_details ds)) = Inr (d @ ''_'' @ ver @ ''.csv'')
         \<and> (accepts w (d @ ''_'' @ ver @ ''.csv'') \<longrightarrow>
               (\<exists>T w'. download_dataset_results ds (Some d) version w = (Inr (Some T), w')
                      \<and> files w' = files w @ [(d @ ''_'' @ ver @ ''.csv'', T)]))
         \<and> (\<not> accepts w (d @ ''_'' @ ver @ ''.csv'') \<longrightarrow>
               fst (download_dataset_results ds (Some d) version w) = Inl OSError
               \<and> files (snd (download_dataset_results ds (Some d) version w)) = files w)"
proof -
  let ?info = "database_info (database_details ds)"
  have ok: "\<forall>db \<in> set ?info. unpack db \<noteq> None"
    using assms(4) by (rule unpack_all_ok)
  have name: "csv_filename (Some d) ?info = Inr (d @ ''_'' @ ver @ ''.csv'')"
    using assms(1) ok assms(2) assms(3) by (rule csv_filename_one)
  have run: "download_dataset_results ds (Some d) version w
               = fetch_and_save ds (Some d) version ?info w"
    using assms(1) assms(2) by (simp add: download_Some)
  have written: "\<exists>T w'. download_dataset_results ds (Some d) version w = (Inr (Some T), w')
                       \<and> files w' = files w @ [(d @ ''_'' @ ver @ ''.csv'', T)]"
    if "accepts w (d @ ''_'' @ ver @ ''.csv'')"
    by (simp add: run fetch_and_save_ok [OF assms(4) assms(5) assms(6) name that])
  have refused: "fst (download_dataset_results ds (Some d) version w) = Inl OSError
                 \<and> files (snd (download_dataset_results ds (Some d) version w)) = files w"
    if "\<not> accepts w (d @ ''_'' @ ver @ ''.csv'')"
    unfolding run by (rule fetch_and_save_refused [OF assms(4) assms(5) assms(6) name that])
  show ?thesis
    using name written refused by blast
qed

theorem single_match_filename_witness:
  "matched ''KEGG'' (database_info (database_details versions_dataset)) = [''KEGG v1'']
   \<and> unpack ''KEGG v1'' = Some (''KEGG'', ''v1'')
   \<and> accepts world0 ''KEGG_v1.csv''
   \<and> (\<exists>T w'. download_dataset_results versions_dataset (Some ''KEGG'') None world0
                  = (Inr (Some T), w')
              \<and> files w' = [(''KEGG_v1.csv'', T)])
   \<and> matched ''KEGG'' (database_info (database_details slash_dataset)) = [''KEGG 2017/05'']
   \<and> \<not> accepts world0 ''KEGG_2017/05.csv''
   \<and> fst (download_dataset_results slash_dataset (Some ''KEGG'') None world0) = Inl OSError
   \<and> files (snd (download_dataset_results slash_dataset (Some ''KEGG'') None world0)) = []"
proof -
  let ?pairs = "[(''HMDB'', ''v2.5''), (''HMDB'', ''v4''), (''KEGG'', ''v1'')]"
  have d: "''KEGG'' \<noteq> []" by simp
  have m: "matched ''KEGG'' (database_info (database_details versions_dataset)) = [''KEGG v1'']"
    by (simp add: versions_info matched_def startswith_def)
  have u: "unpack ''KEGG v1'' = Some (''KEGG'', ''v1'')"
    using versions_unpack by simp
  have p: "map unpack (database_info (database_details versions_dataset)) = map Some ?pairs"
    by (simp only: versions_info versions_unpack)
  have r: "map (results versions_dataset) (filter (selects (Some ''KEGG'') None) ?pairs)
             = map Some [one_row_frame]"
    by (simp add: selects_def versions_dataset_def example_results_def)
  have i: "ion_column_ok [one_row_frame]"
    by (simp add: ion_column_ok_def example_frames_ion)
  have a: "accepts world0 ''KEGG_v1.csv''"
    by (simp add: world0_def)
  have m': "matched ''KEGG'' (database_info (database_details slash_dataset)) = [''KEGG 2017/05'']"
    by (simp add: slash_info matched_def startswith_def)
  have u': "unpack ''KEGG 2017/05'' = Some (''KEGG'', ''2017/05'')"
    using slash_unpack by simp
  have p': "map unpack (database_info (database_details slash_dataset))
              = map Some [(''KEGG'', ''2017/05'')]"
    by (simp only: slash_info slash_unpack)
  have r': "map (results slash_dataset) (filter (selects (Some ''KEGG'') None) [(''KEGG'', ''2017/05'')])
              = map Some [one_row_frame]"
    by (simp add: selects_def slash_dataset_def example_results_def)
  have a': "\<not> accepts world0 ''KEGG_2017/05.csv''"
    by (simp add: world0_def)
  have 1: "\<exists>T w'. download_dataset_results versions_dataset (Some ''KEGG'') None world0
                  = (Inr (Some T), w')
              \<and> files w' = [(''KEGG_v1.csv'', T)]"
    using single_match_filename [OF d m u p r i, of world0] a
    by (simp add: world0_def)
  have 2: "fst (download_dataset_results slash_dataset (Some ''KEGG'') None world0) = Inl OSError
           \<and> files (snd (download_dataset_results slash_dataset (Some ''KEGG'') None world0)) = []"
    using single_match_filename [OF d m' u' p' r' i, of world0] a'
    by (simp add: world0_def)
  show ?thesis
    using m u a 1 m' a' 2 by (intro conjI) simp_all
qed

section \<open>The combined frame\<close>

text \<open>
  Claim C6. In the frame the loop builds, the \<open>Database\<close> column holds, block after
  block in the order of the descriptors, the name of each selected descriptor once for
  every row of its fetched frame, and the \<open>Version\<close> column its version; every other
  column holds the fetched frames' cells in the same order of blocks, each block in the
  order of its frame (a number stays a number: its value is not tracked). When no
  fetched frame has an \<open>ion\<close> column, or one of them holds a string there, line 69
  succeeds and the derived columns leave both tag columns as they are.
\<close>

theorem rows_tagged_in_order:
  assumes "map unpack info = map Some pairs"
      and "map (results ds) (filter (selects database version) pairs) = map Some tables"
  shows "\<exists>C w'. fetch_loop ds database version info empty_df w = (Inr C, w')
           \<and> requests w' = requests w @ filter (selects database version) pairs
           \<and> column C ''Database'' =
               concat (map2 (\<lambda>nv t. replicate (nrows t) (Str (fst nv)))
                            (filter (selects database version) pairs) tables)
           \<and> column C ''Version'' =
               concat (map2 (\<lambda>nv t. replicate (nrows t) (Str (snd nv)))
                            (filter (selects database version) pairs) tables)
           \<and> (\<forall>c. c \<noteq> ''Database'' \<and> c \<noteq> ''Version'' \<longrightarrow>
                  column C c = concat (map (\<lambda>t. column t c) tables))
           \<and> (ion_column_ok tables \<longrightarrow>
                 (\<exists>F. derive_columns C = Inr F
                     \<and> column F ''Database'' = column C ''Database''
                     \<and> column F ''Version'' = column C ''Version''))"
proof -
  let ?sel = "filter (selects database version) pairs"
  have len: "length ?sel = length tables"
    using assms(2) by (metis length_map)
  have derived: "ion_column_ok tables \<longrightarrow>
                 (\<exists>F. derive_columns (combine ?sel tables) = Inr F
                     \<and> column F ''Database'' = column (combine ?sel tables) ''Database''
                     \<and> column F ''Version'' = column (combine ?sel tables) ''Version'')"
    by (simp add: derive_columns_eq ion_ok_combine [OF len] column_derived_frame)
  have cols: "column (combine ?sel tables) ''Database'' =
               concat (map2 (\<lambda>nv t. replicate (nrows t) (Str (fst nv))) ?sel tables)"
       "column (combine ?sel tables) ''Version'' =
               concat (map2 (\<lambda>nv t. replicate (nrows t) (Str (snd nv))) ?sel tables)"
       "\<forall>c. c \<noteq> ''Database'' \<and> c \<noteq> ''Version'' \<longrightarrow>
                  column (combine ?sel tables) c = concat (map (\<lambda>t. column t c) tables)"
    by (simp_all add: column_combine [OF len])
  show ?thesis
    unfolding fetch_loop_combine [OF assms]
    using derived cols by simp
qed

theorem rows_tagged_in_order_witness:
  "ion_column_ok [two_row_frame, two_row_frame, one_row_frame]
   \<and> (\<exists>C w'. fetch_loop versions_dataset None None [''HMDB v2.5'', ''HMDB v4'', ''KEGG v1'']
             empty_df world0 = (Inr C, w')
      \<and> requests w' = [(''HMDB'', ''v2.5''), (''HMDB'', ''v4''), (''KEGG'', ''v1'')]
      \<and> column C ''Database'' =
           [Str ''HMDB'', Str ''HMDB'', Str ''HMDB'', Str ''HMDB'', Str ''KEGG'']
      \<and> column C ''Version'' = [Str ''v2.5'', Str ''v2.5'', Str ''v4'', Str ''v4'', Str ''v1'']
      \<and> column C ''ion'' = [Str ''C6H12O6+Na'', Str ''C5H5N5-H'', Str ''C6H12O6+Na'',
                              Str ''C5H5N5-H'', Str ''C8H10+K'']
      \<and> column C ''mz'' = [NaN, NaN, NaN, NaN, Other]
      \<and> (\<exists>F. derive_columns C = Inr F
             \<and> column F ''Database'' = column C ''Database''
             \<and> column F ''Version'' = column C ''Version''))"
proof -
  let ?pairs = "[(''HMDB'', ''v2.5''), (''HMDB'', ''v4''), (''KEGG'', ''v1'')]"
  let ?tables = "[two_row_frame, two_row_frame, one_row_frame]"
  have r: "map (results versions_dataset) (filter (selects None None) ?pairs) = map Some ?tables"
    by (simp add: selects_def versions_dataset_def example_results_def)
  have i: "ion_column_ok ?tables"
    by (simp add: ion_column_ok_def example_frames_ion)
  show ?thesis
    using rows_tagged_in_order [OF versions_unpack r, of world0] i
    by (auto simp: world0_def selects_def example_frames replicate_two)
qed

section \<open>The filters\<close>

text \<open>
  Claim C2 says that without a name filter the frame holds the rows of every descriptor,
  for every value of \<open>version\<close>. With the version \<open>v4\<close>, line 59 selects the one
  descriptor of that version out of three: a single fetch, and the two rows of
  \<open>HMDB v4\<close> only, in \<open>all_databases.csv\<close>.
\<close>

theorem version_filter_without_name_counterexample:
  "map unpack (database_info (database_details versions_dataset))
     = map Some [(''HMDB'', ''v2.5''), (''HMDB'', ''v4''), (''KEGG'', ''v1'')]
   \<and> fst (download_dataset_results versions_dataset None (Some ''v4'') world0) =
       Inr (Some \<lparr>nrows = 2,
                   cols = [(''ion'', [Str ''C6H12O6+Na'', Str ''C5H5N5-H'']),
                           (''maxIntensity'', [Other, Other]),
                           (''Database'', [Str ''HMDB'', Str ''HMDB'']),
                           (''Version'', [Str ''v4'', Str ''v4'']),
                           (''Adduct'', [Str ''+Na'', NaN])]\<rparr>)
   \<and> console (snd (download_dataset_results versions_dataset None (Some ''v4'') world0)) =
       [''Processing database: HMDB, version: v4'', ''Results saved to all_databases.csv'']
   \<and> requests (snd (download_dataset_results versions_dataset None (Some ''v4'') world0)) =
       [(''HMDB'', ''v4'')]
   \<and> files (snd (download_dataset_results versions_dataset None (Some ''v4'') world0)) =
       [(''all_databases.csv'',
         \<lparr>nrows = 2,
          cols = [(''ion'', [Str ''C6H12O6+Na'', Str ''C5H5N5-H'']),
                  (''maxIntensity'', [Other, Other]),
                  (''Database'', [Str ''HMDB'', Str ''HMDB'']),
                  (''Version'', [Str ''v4'', Str ''v4'']),
                  (''Adduct'', [Str ''+Na'', NaN])]\<rparr>)]"
  by code_simp

text \<open>
  Claim C2, amended. With \<open>database\<close> \<open>None\<close>, whatever \<open>version\<close> is, a run that reaches
  line 85 and whose file name is accepted writes the returned frame to
  \<open>all_databases.csv\<close>; it fetches the descriptors whose version equals \<open>version\<close>, all
  of them when \<open>version\<close> is \<open>None\<close>, and the frame holds the rows of every fetched frame
  and no other: the number of rows is the sum over the fetched frames, the tag columns
  name the descriptor of each block, and every other column that lines 67 to 72 do not
  touch holds the fetched frames' cells in order.
\<close>

theorem no_name_filter:
  assumes "map unpack (database_info (database_details ds)) = map Some pairs"
      and "map (results ds) (filter (\<lambda>nv. version = None \<or> version = Some (snd nv)) pairs)
             = map Some tables"
      and "ion_column_ok tables"
      and "accepts w ''all_databases.csv''"
  shows "\<exists>T w'. download_dataset_results ds None version w = (Inr (Some T), w')
           \<and> files w' = files w @ [(''all_databases.csv'', T)]
           \<and> requests w' = requests w
                 @ filter (\<lambda>nv. version = None \<or> version = Some (snd nv)) pairs
           \<and> (version = None \<longrightarrow> requests w' = requests w @ pairs)
           \<and> nrows T = sum_list (map nrows tables)
           \<and> column T ''Database'' =
               concat (map2 (\<lambda>nv t. replicate (nrows t) (Str (fst nv)))
                        (filter (\<lambda>nv. version = None \<or> version = Some (snd nv)) pairs) tables)
           \<and> column T ''Version'' =
               concat (map2 (\<lambda>nv t. replicate (nrows t) (Str (snd nv)))
                        (filter (\<lambda>nv. version = None \<or> version = Some (snd nv)) pairs) tables)
           \<and> (\<forall>c. c \<notin> {''Database'', ''Version'', ''Adduct'', ''intensity'', ''maxIntensity''}
                  \<longrightarrow> column T c = concat (map (\<lambda>t. column t c) tables))"
proof -
  let ?keep = "\<lambda>nv :: string \<times> string. version = None \<or> version = Some (snd nv)"
  let ?sel = "filter ?keep pairs"
  let ?T = "derived_frame (combine ?sel tables)"
  have sel: "selects None version = ?keep"
    by (rule selects_None)
  have len: "length ?sel = length tables"
    using assms(2) by (metis length_map)
  have fetched: "map (results ds) (filter (selects None version) pairs) = map Some tables"
    unfolding sel by (rule assms(2))
  have name: "csv_filename None (database_info (database_details ds)) = Inr ''all_databases.csv''"
    by simp
  have run: "download_dataset_results ds None version w =
     (Inr (Some ?T),
      w\<lparr>console := console w @ map processing_line ?sel @ [''Results saved to '' @ ''all_databases.csv''],
        requests := requests w @ ?sel,
        files := files w @ [(''all_databases.csv'', ?T)]\<rparr>)"
    unfolding download_None
    using fetch_and_save_ok [OF assms(1) fetched assms(3) name assms(4)]
    unfolding sel .
  have all: "version = None \<longrightarrow> ?sel = pairs"
    by simp
  have rows: "nrows ?T = sum_list (map nrows tables)"
    by (simp add: nrows_combine [OF len])
  have db: "column ?T ''Database'' =
               concat (map2 (\<lambda>nv t. replicate (nrows t) (Str (fst nv))) ?sel tables)"
    by (simp add: column_derived_frame column_combine [OF len])
  have ver: "column ?T ''Version'' =
               concat (map2 (\<lambda>nv t. replicate (nrows t) (Str (snd nv))) ?sel tables)"
    by (simp add: column_derived_frame column_combine [OF len])
  have others: "\<forall>c. c \<notin> {''Database'', ''Version'', ''Adduct'', ''intensity'', ''maxIntensity''}
                  \<longrightarrow> column ?T c = concat (map (\<lambda>t. column t c) tables)"
    by (simp add: column_derived_frame column_combine [OF len])
  show ?thesis
    unfolding run using all rows db ver others by simp
qed

theorem no_name_filter_witness:
  "(\<exists>T w'. download_dataset_results versions_dataset None None world0 = (Inr (Some T), w')
      \<and> files w' = [(''all_databases.csv'', T)]
      \<and> requests w' = [(''HMDB'', ''v2.5''), (''HMDB'', ''v4''), (''KEGG'', ''v1'')]
      \<and> nrows T = 5
      \<and> column T ''Database'' = [Str ''HMDB'', Str ''HMDB'', Str ''HMDB'', Str ''HMDB'', Str ''KEGG'']
      \<and> column T ''mz'' = [NaN, NaN, NaN, NaN, Other])
   \<and> (\<exists>T w'. download_dataset_results versions_dataset None (Some ''v4'') world0
                = (Inr (Some T), w')
      \<and> files w' = [(''all_databases.csv'', T)]
      \<and> requests w' = [(''HMDB'', ''v4'')]
      \<and> nrows T = 2
      \<and> column T ''Version'' = [Str ''v4'', Str ''v4'']
      \<and> column T ''ion'' = [Str ''C6H12O6+Na'', Str ''C5H5N5-H''])"
proof -
  let ?pairs = "[(''HMDB'', ''v2.5''), (''HMDB'', ''v4''), (''KEGG'', ''v1'')]"
  let ?tables = "[two_row_frame, two_row_frame, one_row_frame]"
  have p: "map unpack (database_info (database_details versions_dataset)) = map Some ?pairs"
    by (simp only: versions_info versions_unpack)
  have r: "map (results versions_dataset)
             (filter (\<lambda>nv. (None :: string option) = None \<or> None = Some (snd nv)) ?pairs)
           = map Some ?tables"
    by (simp add: versions_dataset_def example_results_def)
  have r': "map (results versions_dataset)
             (filter (\<lambda>nv. Some ''v4'' = None \<or> Some ''v4'' = Some (snd nv)) ?pairs)
           = map Some [two_row_frame]"
    by (simp add: versions_dataset_def example_results_def)
  have i: "ion_column_ok ?tables" "ion_column_ok [two_row_frame]"
    by (simp_all add: ion_column_ok_def example_frames_ion)
  have a: "accepts world0 ''all_databases.csv''"
    by (simp add: world0_def)
  have 1: "\<exists>T w'. download_dataset_results versions_dataset None None world0 = (Inr (Some T), w')
      \<and> files w' = [(''all_databases.csv'', T)]
      \<and> requests w' = [(''HMDB'', ''v2.5''), (''HMDB'', ''v4''), (''KEGG'', ''v1'')]
      \<and> nrows T = 5
      \<and> column T ''Database'' = [Str ''HMDB'', Str ''HMDB'', Str ''HMDB'', Str ''HMDB'', Str ''KEGG'']
      \<and> column T ''mz'' = [NaN, NaN, NaN, NaN, Other]"
    using no_name_filter [OF p r i(1) a]
    by (auto simp: world0_def example_frames replicate_two)
  have 2: "\<exists>T w'. download_dataset_results versions_dataset None (Some ''v4'') world0
                = (Inr (Some T), w')
      \<and> files w' = [(''all_databases.csv'', T)]
      \<and> requests w' = [(''HMDB'', ''v4'')]
      \<and> nrows T = 2
      \<and> column T ''Version'' = [Str ''v4'', Str ''v4'']
      \<and> column T ''ion'' = [Str ''C6H12O6+Na'', Str ''C5H5N5-H'']"
    using no_name_filter [OF p r' i(2) a]
    by (auto simp: world0_def example_frames replicate_two)
  show ?thesis
    using 1 2 by (rule conjI)
qed

section \<open>The name filter that matches by prefix\<close>

text \<open>
  Claim C1: when the name filter matches several descriptors by prefix and no version is
  given, the function warns and then fetches and includes all of them. The code does not
  do this. Lines 40 and 76 test \<open>db.startswith(database)\<close>, line 59 tests
  \<open>database == name\<close>. With the databases \<open>KEGG v1\<close> and \<open>KEGGv2 v1\<close> and the filter
  \<open>KEGG\<close>, both descriptors match and the warning lists both, but only \<open>KEGG v1\<close> is
  fetched: the frame written to \<open>KEGG_all_versions.csv\<close> holds its one row and none of
  the two rows of \<open>KEGGv2 v1\<close>, and a database with one version is written under the name
  of a database with several.
\<close>

theorem prefix_match_warned_not_fetched:
  "matched ''KEGG'' (database_info (database_details prefix_dataset)) = [''KEGG v1'', ''KEGGv2 v1'']
   \<and> unpack ''KEGGv2 v1'' = Some (''KEGGv2'', ''v1'')
   \<and> results prefix_dataset (''KEGGv2'', ''v1'') = Some two_row_frame
   \<and> fst (download_dataset_results prefix_dataset (Some ''KEGG'') None world0) =
       Inr (Some \<lparr>nrows = 1,
                   cols = [(''mz'', [Other]), (''ion'', [Str ''C8H10+K'']),
                           (''Database'', [Str ''KEGG'']), (''Version'', [Str ''v1'']),
                           (''Adduct'', [Str ''+K''])]\<rparr>)
   \<and> console (snd (download_dataset_results prefix_dataset (Some ''KEGG'') None world0)) =
       [''Warning: Multiple versions found for database KEGG.'',
        ''Available versions:'', ''KEGG v1'', ''KEGGv2 v1'',
        ''Processing database: KEGG, version: v1'',
        ''Results saved to KEGG_all_versions.csv'']
   \<and> requests (snd (download_dataset_results prefix_dataset (Some ''KEGG'') None world0)) =
       [(''KEGG'', ''v1'')]
   \<and> files (snd (download_dataset_results prefix_dataset (Some ''KEGG'') None world0)) =
       [(''KEGG_all_versions.csv'',
         \<lparr>nrows = 1,
          cols = [(''mz'', [Other]), (''ion'', [Str ''C8H10+K'']),
                  (''Database'', [Str ''KEGG'']), (''Version'', [Str ''v1'']),
                  (''Adduct'', [Str ''+K''])]\<rparr>)]"
  by code_simp

text \<open>
  Claim C4: when two or more descriptors match \<open>database\<close> and \<open>version\<close> is \<open>None\<close>, the
  file is \<open>{database}_all_versions.csv\<close> and the number of rows is the sum over the
  per-descriptor result frames. The same two tests disagree here. With the databases
  \<open>HMDB v2.5\<close>, \<open>HMDB v4\<close> and \<open>HMDB-endogenous v4\<close>, of two rows each, the filter \<open>HMDB\<close>
  matches all three by prefix, but line 59 compares the whole name: two frames are
  fetched, and \<open>HMDB_all_versions.csv\<close> holds four rows, not six.
\<close>

theorem prefix_match_rows_not_summed:
  "matched ''HMDB'' (database_info (database_details endogenous_dataset))
     = [''HMDB v2.5'', ''HMDB v4'', ''HMDB-endogenous v4'']
   \<and> map unpack [''HMDB v2.5'', ''HMDB v4'', ''HMDB-endogenous v4'']
     = map Some [(''HMDB'', ''v2.5''), (''HMDB'', ''v4''), (''HMDB-endogenous'', ''v4'')]
   \<and> map (results endogenous_dataset)
         [(''HMDB'', ''v2.5''), (''HMDB'', ''v4''), (''HMDB-endogenous'', ''v4'')]
     = map Some [two_row_frame, two_row_frame, two_row_frame]
   \<and> sum_list (map nrows [two_row_frame, two_row_frame, two_row_frame]) = 6
   \<and> fst (download_dataset_results endogenous_dataset (Some ''HMDB'') None world0) =
       Inr (Some \<lparr>nrows = 4,
                   cols = [(''ion'', [Str ''C6H12O6+Na'', Str ''C5H5N5-H'',
                                      Str ''C6H12O6+Na'', Str ''C5H5N5-H'']),
                           (''maxIntensity'', [Other, Other, Other, Other]),
                           (''Database'', [Str ''HMDB'', Str ''HMDB'', Str ''HMDB'', Str ''HMDB'']),
                           (''Version'', [Str ''v2.5'', Str ''v2.5'', Str ''v4'', Str ''v4'']),
                           (''Adduct'', [Str ''+Na'', NaN, Str ''+Na'', NaN])]\<rparr>)
   \<and> requests (snd (download_dataset_results endogenous_dataset (Some ''HMDB'') None world0)) =
       [(''HMDB'', ''v2.5''), (''HMDB'', ''v4'')]
   \<and> map fst (files (snd (download_dataset_results endogenous_dataset (Some ''HMDB'') None world0)))
       = [''HMDB_all_versions.csv'']
   \<and> map (nrows \<circ> snd)
         (files (snd (download_dataset_results endogenous_dataset (Some ''HMDB'') None world0)))
       = [4]"
  by code_simp

section \<open>Runs that select nothing, and runs that raise\<close>



text \<open>
  Claim C9 says that a descriptor that does not split into exactly two tokens makes the
  function raise instead of returning. \<open>Core Metabolome v3\<close> splits into three tokens,
  but with the name filter \<open>KEGG\<close> nothing matches, and the function returns \<open>None\<close> at
  line 46, before the loop unpacks anything.
\<close>

theorem malformed_descriptor_returns_counterexample:
  "database_info (database_details space_dataset) = [''Core Metabolome v3'']
   \<and> split_ws ''Core Metabolome v3'' = [''Core'', ''Metabolome'', ''v3'']
   \<and> unpack ''Core Metabolome v3'' = None
   \<and> download_dataset_results space_dataset (Some ''KEGG'') None world0 =
       (Inr None,
        \<lparr>console = [''Could not find database: KEGG'', ''Available databases and versions:'',
                    ''Core Metabolome v3''],
         requests = [], files = [], accepts = accepts world0\<rparr>)"
  by (simp add: space_info space_unpack split_ws_def is_space_def download_dataset_results_def
        matched_def startswith_def print_lines_def not_found_lines_def world0_def)

text \<open>
  Claim C9, amended. When some descriptor does not split into exactly two tokens and the
  function reaches the loop (the name filter is absent or empty, or some descriptor
  starts with it), the function raises and writes no file: the unpacking raises
  \<open>ValueError\<close>, unless a fetch for an earlier descriptor has failed before.
\<close>

theorem malformed_descriptor_raises:
  assumes "\<exists>db \<in> set (database_info (database_details ds)). unpack db = None"
      and "\<forall>d. database = Some d \<and> d \<noteq> [] \<longrightarrow> matched d (database_info (database_details ds)) \<noteq> []"
  shows "(fst (download_dataset_results ds database version w) = Inl ValueError
          \<or> fst (download_dataset_results ds database version w) = Inl RemoteError)
         \<and> files (snd (download_dataset_results ds database version w)) = files w
         \<and> ((\<forall>nv. results ds nv \<noteq> None) \<longrightarrow>
               fst (download_dataset_results ds database version w) = Inl ValueError)"
proof -
  let ?info = "database_info (database_details ds)"
  obtain w0 where run: "download_dataset_results ds database version w =
                          fetch_and_save ds database version ?info w0"
    and w0: "files w0 = files w"
    using download_reaches_loop [OF assms(2)] by blast
  from fetch_loop_malformed [OF assms(1), of ds database version empty_df w0]
  have raised: "fst (fetch_and_save ds database version ?info w0) = Inl ValueError
              \<or> fst (fetch_and_save ds database version ?info w0) = Inl RemoteError"
    and kept: "files (snd (fetch_and_save ds database version ?info w0)) = files w0"
    using fetch_and_save_raises by blast+
  have always: "fst (fetch_and_save ds database version ?info w0) = Inl ValueError"
    if "\<forall>nv. results ds nv \<noteq> None"
    using fetch_loop_malformed_ValueError [OF assms(1) that] fetch_and_save_raises by blast
  show ?thesis
    using raised kept always by (simp add: run w0)
qed

theorem malformed_descriptor_raises_witness:
  "unpack ''Core Metabolome v3'' = None
   \<and> fst (download_dataset_results space_dataset None None world0) = Inl ValueError
   \<and> files (snd (download_dataset_results space_dataset None None world0)) = []"
proof -
  have bad: "\<exists>db \<in> set (database_info (database_details space_dataset)). unpack db = None"
    by (simp add: space_info space_unpack)
  have reach: "\<forall>d. (None :: string option) = Some d \<and> d \<noteq> []
                 \<longrightarrow> matched d (database_info (database_details space_dataset)) \<noteq> []"
    by simp
  have total: "\<forall>nv. results space_dataset nv \<noteq> None"
    by (simp add: space_dataset_def example_results_def)
  show ?thesis
    using malformed_descriptor_raises [OF bad reach, of None world0] total space_unpack
    by (simp add: world0_def)
qed

end
